theory Spec2Isabelle
  imports Main
begin

section \<open>Data model\<close>

text \<open>
  The reservation types of \<^verbatim>\<open>types/reservation.ts\<close>. A date field holds a calendar-day
  string \<^verbatim>\<open>yyyy-MM-dd\<close>; the code only ever reads it through \<^verbatim>\<open>parseISO\<close> and writes it
  through \<^verbatim>\<open>format(_, 'yyyy-MM-dd')\<close>, so a date is represented by the day number that
  \<^verbatim>\<open>parseISO\<close> yields for a valid string (comparison of \<^verbatim>\<open>Date\<close> objects is comparison of
  day numbers). Strings that do not parse are outside the model.

  \<^verbatim>\<open>Omit<Reservation, 'id'>\<close> is the record \<open>ReservationDraft\<close>; \<open>Reservation\<close> extends it
  with the field \<open>rid\<close> (the source's \<^verbatim>\<open>id\<close>), so that a function on drafts accepts a
  reservation too, as in TypeScript. The field \<open>notes'\<close> is the source's \<^verbatim>\<open>notes\<close>. The
  optional fields \<^verbatim>\<open>notes?\<close> and \<^verbatim>\<open>color?\<close> are options. \<^verbatim>\<open>clientName\<close> is read by the
  calendar, the list and the editor.
\<close>

type_synonym day = int

record ReservationDraft =
  apartment :: string
  clientName :: string
  startDate :: day
  endDate :: day
  notes' :: "string option"
  color :: "string option"

record Reservation = ReservationDraft +
  rid :: string

text \<open>\<^verbatim>\<open>Apartment\<close>: the fields \<^verbatim>\<open>id\<close>, \<^verbatim>\<open>name\<close>, \<^verbatim>\<open>color\<close>.\<close>

record Apartment =
  aptId :: string
  name :: string
  aptColor :: string

text \<open>
  \<^verbatim>\<open>Partial<Omit<Reservation, 'id'>>\<close>: every field may be absent (\<open>None\<close>) or present.
\<close>

record Updates =
  updApartment :: "string option"
  updClientName :: "string option"
  updStartDate :: "day option"
  updEndDate :: "day option"
  updNotes :: "string option option"
  updColor :: "string option option"

definition noUpdates :: Updates where
  "noUpdates = \<lparr>updApartment = None, updClientName = None, updStartDate = None,
     updEndDate = None, updNotes = None, updColor = None\<rparr>"

text \<open>The object spread \<^verbatim>\<open>{ ...existingReservation, ...updates }\<close>.\<close>

definition mergeUpdates :: "Reservation \<Rightarrow> Updates \<Rightarrow> Reservation" where
  "mergeUpdates r u =
     r\<lparr>apartment := (case updApartment u of None \<Rightarrow> apartment r | Some a \<Rightarrow> a),
       clientName := (case updClientName u of None \<Rightarrow> clientName r | Some c \<Rightarrow> c),
       startDate := (case updStartDate u of None \<Rightarrow> startDate r | Some d \<Rightarrow> d),
       endDate := (case updEndDate u of None \<Rightarrow> endDate r | Some d \<Rightarrow> d),
       notes' := (case updNotes u of None \<Rightarrow> notes' r | Some n \<Rightarrow> n),
       color := (case updColor u of None \<Rightarrow> color r | Some c \<Rightarrow> c)\<rparr>"

section \<open>Exceptions and messages\<close>

text \<open>
  A thrown JavaScript exception with its message: \<^verbatim>\<open>new Error(msg)\<close> of the hook, and the
  \<^verbatim>\<open>RangeError\<close> of date-fns.
\<close>

datatype js_error = Error string | RangeError string

fun message :: "js_error \<Rightarrow> string" where
  "message (Error m) = m"
| "message (RangeError m) = m"

text \<open>The messages of the source; \<open>CHR 0xE9\<close> is e acute, \<open>CHR 0xE0\<close> is a grave.\<close>

definition msgConflict :: string where
  "msgConflict = ''Cette p'' @ [CHR 0xE9] @ ''riode est d'' @ [CHR 0xE9] @ ''j'' @ [CHR 0xE0]
     @ '' r'' @ [CHR 0xE9] @ ''serv'' @ [CHR 0xE9] @ ''e pour cet appartement''"

definition msgNotFound :: string where
  "msgNotFound = ''R'' @ [CHR 0xE9] @ ''servation introuvable''"

definition msgSaveThrown :: string where
  "msgSaveThrown = ''Impossible de sauvegarder les donn'' @ [CHR 0xE9] @ ''es''"

definition msgSaveError :: string where
  "msgSaveError = ''Erreur lors de la sauvegarde''"

definition msgDragConflict :: string where
  "msgDragConflict = ''Conflit d'' @ [CHR 0xE9] @ ''tect'' @ [CHR 0xE9] @ '' : cette p''
     @ [CHR 0xE9] @ ''riode est d'' @ [CHR 0xE9] @ ''j'' @ [CHR 0xE0] @ '' r'' @ [CHR 0xE9]
     @ ''serv'' @ [CHR 0xE9] @ ''e pour cet appartement.''"

definition fallbackColor :: string where
  "fallbackColor = ''#6B7280''"

section \<open>The date-fns functions the code calls\<close>

text \<open>
  \<^verbatim>\<open>isWithinInterval(date, { start, end })\<close> is a function of the date-fns library, whose
  behaviour on an interval with \<open>start > end\<close> depends on the library's major version:
  version 2 throws \<^verbatim>\<open>RangeError('Invalid interval')\<close>, version 3 and later sort the two
  ends first. The version in use is a parameter of the model. On an interval with
  \<open>start \<le> end\<close> both return \<open>start \<le> date \<and> date \<le> end\<close>.
\<close>

datatype date_fns = V2 | V3

fun isWithinInterval :: "date_fns \<Rightarrow> day \<Rightarrow> day \<Rightarrow> day \<Rightarrow> js_error + bool" where
  "isWithinInterval V2 date start end' =
     (if \<not> (start \<le> end') then Inl (RangeError ''Invalid interval'')
      else Inr (start \<le> date \<and> date \<le> end'))"
| "isWithinInterval V3 date start end' =
     Inr (min start end' \<le> date \<and> date \<le> max start end')"

text \<open>\<^verbatim>\<open>differenceInDays(later, earlier)\<close> and \<^verbatim>\<open>addDays(date, n)\<close> on calendar days.\<close>

definition differenceInDays :: "day \<Rightarrow> day \<Rightarrow> int" where
  "differenceInDays later earlier = later - earlier"

definition addDays :: "day \<Rightarrow> int \<Rightarrow> day" where
  "addDays date n = date + n"

section \<open>The reservation store (hook useReservations)\<close>

text \<open>
  The state of the hook: the \<^verbatim>\<open>reservations\<close>, \<^verbatim>\<open>apartments\<close> and \<^verbatim>\<open>error\<close> state variables,
  and \<open>persisted\<close>, the value stored under \<^verbatim>\<open>STORAGE_KEY\<close> in \<^verbatim>\<open>localStorage\<close> (the JSON
  text is represented by the list it encodes).
\<close>

record Store =
  reservations :: "Reservation list"
  apartments :: "Apartment list"
  error :: "string option"
  persisted :: "Reservation list option"

text \<open>
  \<^verbatim>\<open>saveReservations\<close>. The flag \<open>writable\<close> says whether \<^verbatim>\<open>localStorage.setItem\<close> returns
  (\<open>True\<close>) or throws (\<open>False\<close>) at this call. The result is the exception thrown, if
  any, and the state after the call.
\<close>

definition saveReservations ::
  "bool \<Rightarrow> Reservation list \<Rightarrow> Store \<Rightarrow> (js_error + unit) \<times> Store" where
  "saveReservations writable newReservations s =
     (if writable
      then (Inr (), s\<lparr>persisted := Some newReservations, reservations := newReservations,
                      error := None\<rparr>)
      else (Inl (Error msgSaveThrown), s\<lparr>error := Some msgSaveError\<rparr>))"

text \<open>
  The callback of \<^verbatim>\<open>.some(...)\<close> in \<^verbatim>\<open>checkConflict\<close>: three calls of
  \<^verbatim>\<open>isWithinInterval\<close> joined by \<^verbatim>\<open>||\<close>, evaluated left to right, a later one only when
  the earlier ones returned false; an exception ends the evaluation.
\<close>

definition overlapTest ::
  "date_fns \<Rightarrow> day \<Rightarrow> day \<Rightarrow> Reservation \<Rightarrow> js_error + bool" where
  "overlapTest v newStart newEnd reservation =
     (let existingStart = startDate reservation; existingEnd = endDate reservation in
      case isWithinInterval v newStart existingStart existingEnd of
        Inl e \<Rightarrow> Inl e
      | Inr True \<Rightarrow> Inr True
      | Inr False \<Rightarrow>
          (case isWithinInterval v newEnd existingStart existingEnd of
             Inl e \<Rightarrow> Inl e
           | Inr True \<Rightarrow> Inr True
           | Inr False \<Rightarrow> isWithinInterval v existingStart newStart newEnd))"

text \<open>\<^verbatim>\<open>Array.prototype.some\<close> with a callback that may throw.\<close>

fun some :: "('a \<Rightarrow> js_error + bool) \<Rightarrow> 'a list \<Rightarrow> js_error + bool" where
  "some p [] = Inr False"
| "some p (x # xs) =
     (case p x of Inl e \<Rightarrow> Inl e | Inr True \<Rightarrow> Inr True | Inr False \<Rightarrow> some p xs)"

text \<open>
  \<^verbatim>\<open>checkConflict(newReservation, excludeId?)\<close> on the current reservations. An absent
  \<^verbatim>\<open>excludeId\<close> is \<open>None\<close>: \<^verbatim>\<open>r.id !== undefined\<close> holds for every reservation.
\<close>

definition checkConflict ::
  "date_fns \<Rightarrow> Reservation list \<Rightarrow> 'a ReservationDraft_scheme \<Rightarrow> string option
     \<Rightarrow> js_error + bool" where
  "checkConflict v rs newReservation excludeId =
     (let newStart = startDate newReservation; newEnd = endDate newReservation in
      some (overlapTest v newStart newEnd)
        (filter (\<lambda>r. Some (rid r) \<noteq> excludeId \<and> apartment r = apartment newReservation) rs))"

text \<open>\<^verbatim>\<open>apartment?.color || '#6B7280'\<close> for the result of \<^verbatim>\<open>apartments.find(...)\<close>.\<close>

definition colorOrFallback :: "Apartment option \<Rightarrow> string" where
  "colorOrFallback apt =
     (case apt of
        None \<Rightarrow> fallbackColor
      | Some a \<Rightarrow> if aptColor a = [] then fallbackColor else aptColor a)"

text \<open>
  \<^verbatim>\<open>addReservation(reservation)\<close>. \<open>now\<close> is the string \<^verbatim>\<open>Date.now().toString()\<close> read at
  this call.
\<close>

definition addReservation ::
  "date_fns \<Rightarrow> bool \<Rightarrow> string \<Rightarrow> ReservationDraft \<Rightarrow> Store
     \<Rightarrow> (js_error + Reservation) \<times> Store" where
  "addReservation v writable now reservation s =
     (case checkConflict v (reservations s) reservation None of
        Inl e \<Rightarrow> (Inl e, s)
      | Inr True \<Rightarrow> (Inl (Error msgConflict), s)
      | Inr False \<Rightarrow>
          (let apt = find (\<lambda>a. name a = apartment reservation) (apartments s);
               newReservation =
                 \<lparr>apartment = apartment reservation, clientName = clientName reservation,
                  startDate = startDate reservation, endDate = endDate reservation,
                  notes' = notes' reservation, color = Some (colorOrFallback apt),
                  rid = now\<rparr>;
               newReservations = reservations s @ [newReservation] in
           case saveReservations writable newReservations s of
             (Inl e, s') \<Rightarrow> (Inl e, s')
           | (Inr _, s') \<Rightarrow> (Inr newReservation, s')))"

text \<open>
  \<^verbatim>\<open>updateReservation(id, updates)\<close>. The test \<^verbatim>\<open>if (updates.apartment)\<close> holds for a
  present, non-empty string.
\<close>

definition updateReservation ::
  "date_fns \<Rightarrow> bool \<Rightarrow> string \<Rightarrow> Updates \<Rightarrow> Store
     \<Rightarrow> (js_error + Reservation) \<times> Store" where
  "updateReservation v writable i updates s =
     (case find (\<lambda>r. rid r = i) (reservations s) of
        None \<Rightarrow> (Inl (Error msgNotFound), s)
      | Some existingReservation \<Rightarrow>
          (let updatedReservation = mergeUpdates existingReservation updates in
           case checkConflict v (reservations s) updatedReservation (Some i) of
             Inl e \<Rightarrow> (Inl e, s)
           | Inr True \<Rightarrow> (Inl (Error msgConflict), s)
           | Inr False \<Rightarrow>
               (let updatedReservation' =
                      (case updApartment updates of
                         None \<Rightarrow> updatedReservation
                       | Some a \<Rightarrow>
                           if a = [] then updatedReservation
                           else updatedReservation
                                  \<lparr>color := Some (colorOrFallback
                                     (find (\<lambda>apt. name apt = a) (apartments s)))\<rparr>);
                    newReservations =
                      map (\<lambda>r. if rid r = i then updatedReservation' else r) (reservations s) in
                case saveReservations writable newReservations s of
                  (Inl e, s') \<Rightarrow> (Inl e, s')
                | (Inr _, s') \<Rightarrow> (Inr updatedReservation', s'))))"

text \<open>\<^verbatim>\<open>deleteReservation(id)\<close>.\<close>

definition deleteReservation :: "bool \<Rightarrow> string \<Rightarrow> Store \<Rightarrow> (js_error + unit) \<times> Store" where
  "deleteReservation writable i s =
     (let newReservations = filter (\<lambda>r. rid r \<noteq> i) (reservations s) in
      saveReservations writable newReservations s)"

text \<open>\<^verbatim>\<open>getReservation(id)\<close>.\<close>

definition getReservation :: "string \<Rightarrow> Store \<Rightarrow> Reservation option" where
  "getReservation i s = find (\<lambda>r. rid r = i) (reservations s)"

section \<open>The calendar component (CalendarView) and its host (App)\<close>

text \<open>
  \<^verbatim>\<open>DragState\<close>, as the component builds and reads it: \<^verbatim>\<open>newStartDate\<close> and \<^verbatim>\<open>newEndDate\<close>
  are absent until the first pointer move.
\<close>

record DragState =
  reservationId :: string
  originalReservation :: Reservation
  isActive :: bool
  newStartDate :: "day option"
  newEndDate :: "day option"

text \<open>
  The state variables of the component that the gestures use: \<^verbatim>\<open>selectedRange\<close> (its
  \<^verbatim>\<open>start\<close> and \<^verbatim>\<open>end\<close>, each a date or null), \<^verbatim>\<open>isSelecting\<close>, \<^verbatim>\<open>dragState\<close> and
  \<^verbatim>\<open>isDragging\<close>.
\<close>

record Calendar =
  selectedRange :: "day option \<times> day option"
  isSelecting :: bool
  dragState :: "DragState option"
  isDragging :: bool

text \<open>The application: the store of the hook and the calendar rendered from it.\<close>

record App =
  store :: Store
  calendar :: Calendar

text \<open>
  What a handler does to the outside: the call \<^verbatim>\<open>onDateRangeSelect(start, end)\<close>, which
  opens the creation editor, and \<^verbatim>\<open>alert(msg)\<close>.
\<close>

datatype effect = DateRangeSelect day day | Alert string

text \<open>\<^verbatim>\<open>dragState?.isActive\<close>.\<close>

definition dragActive :: "Calendar \<Rightarrow> bool" where
  "dragActive c = (case dragState c of None \<Rightarrow> False | Some d \<Rightarrow> isActive d)"

text \<open>\<^verbatim>\<open>handleDateClick(date)\<close>: the effects emitted and the state after the click.\<close>

definition handleDateClick :: "day \<Rightarrow> App \<Rightarrow> effect list \<times> App" where
  "handleDateClick date a =
     (let c = calendar a in
      if dragActive c then ([], a)
      else if \<not> isSelecting c
      then ([], a\<lparr>calendar := c\<lparr>selectedRange := (Some date, None), isSelecting := True\<rparr>\<rparr>)
      else
        (case fst (selectedRange c) of
           None \<Rightarrow> ([], a)
         | Some anchor \<Rightarrow>
             (let start = (if anchor \<le> date then anchor else date);
                  end' = (if anchor \<le> date then date else anchor) in
              ([DateRangeSelect start end'],
               a\<lparr>calendar := c\<lparr>selectedRange := (None, None), isSelecting := False\<rparr>\<rparr>))))"

text \<open>\<^verbatim>\<open>cancelSelection()\<close>.\<close>

definition cancelSelection :: "App \<Rightarrow> effect list \<times> App" where
  "cancelSelection a =
     ([], a\<lparr>calendar := (calendar a)\<lparr>isSelecting := False, selectedRange := (None, None)\<rparr>\<rparr>)"

text \<open>\<^verbatim>\<open>handleReservationMouseDown(reservation, e)\<close>.\<close>

definition handleReservationMouseDown :: "Reservation \<Rightarrow> App \<Rightarrow> App" where
  "handleReservationMouseDown reservation a =
     a\<lparr>calendar := (calendar a)
        \<lparr>dragState := Some \<lparr>reservationId = rid reservation,
                             originalReservation = reservation, isActive = False,
                             newStartDate = None, newEndDate = None\<rparr>,
         isDragging := True\<rparr>\<rparr>"

text \<open>\<^verbatim>\<open>handleMouseMove(date)\<close>.\<close>

definition handleMouseMove :: "day \<Rightarrow> App \<Rightarrow> App" where
  "handleMouseMove date a =
     (let c = calendar a in
      case dragState c of
        None \<Rightarrow> a
      | Some d \<Rightarrow>
          if \<not> isDragging c then a
          else
            (let originalStart = startDate (originalReservation d);
                 originalEnd = endDate (originalReservation d);
                 duration = differenceInDays originalEnd originalStart;
                 newStart = date;
                 newEnd = addDays date duration in
             a\<lparr>calendar := c\<lparr>dragState :=
                  Some (d\<lparr>newStartDate := Some newStart, newEndDate := Some newEnd,
                          isActive := True\<rparr>)\<rparr>\<rparr>))"

text \<open>\<^verbatim>\<open>handleMouseUp()\<close>, and the global \<^verbatim>\<open>mouseup\<close> listener, which does the same.\<close>

definition handleMouseUp :: "App \<Rightarrow> App" where
  "handleMouseUp a = a\<lparr>calendar := (calendar a)\<lparr>isDragging := False\<rparr>\<rparr>"

text \<open>\<^verbatim>\<open>handleCancelDrag()\<close>.\<close>

definition handleCancelDrag :: "App \<Rightarrow> App" where
  "handleCancelDrag a = a\<lparr>calendar := (calendar a)\<lparr>dragState := None\<rparr>\<rparr>"

text \<open>
  \<^verbatim>\<open>handleReservationUpdate(id, updates)\<close> of \<^verbatim>\<open>App\<close>, passed to the calendar as
  \<^verbatim>\<open>onReservationUpdate\<close>: it calls \<^verbatim>\<open>updateReservation\<close>, catches what that throws and
  shows its message.
\<close>

definition handleReservationUpdate ::
  "date_fns \<Rightarrow> bool \<Rightarrow> string \<Rightarrow> Updates \<Rightarrow> Store \<Rightarrow> effect list \<times> Store" where
  "handleReservationUpdate v writable i updates s =
     (case updateReservation v writable i updates s of
        (Inl e, s') \<Rightarrow> ([Alert (message e)], s')
      | (Inr _, s') \<Rightarrow> ([], s'))"

text \<open>
  \<^verbatim>\<open>handleSaveDrag()\<close>. An exception of \<^verbatim>\<open>checkConflict\<close> leaves the handler uncaught
  (\<open>Inl\<close>), before any state is set.
\<close>

definition handleSaveDrag :: "date_fns \<Rightarrow> bool \<Rightarrow> App \<Rightarrow> js_error + effect list \<times> App" where
  "handleSaveDrag v writable a =
     (case dragState (calendar a) of
        None \<Rightarrow> Inr ([], a)
      | Some d \<Rightarrow>
          (case newStartDate d of
             None \<Rightarrow> Inr ([], a)
           | Some ns \<Rightarrow>
               (case newEndDate d of
                  None \<Rightarrow> Inr ([], a)
                | Some ne \<Rightarrow>
                    (let updates = noUpdates\<lparr>updStartDate := Some ns, updEndDate := Some ne\<rparr>;
                         testReservation = mergeUpdates (originalReservation d) updates in
                     case checkConflict v (reservations (store a)) testReservation
                            (Some (reservationId d)) of
                       Inl e \<Rightarrow> Inl e
                     | Inr True \<Rightarrow> Inr ([Alert msgDragConflict], a)
                     | Inr False \<Rightarrow>
                         (case handleReservationUpdate v writable (reservationId d) updates
                                 (store a) of
                            (fx, s') \<Rightarrow>
                              Inr (fx, \<lparr>store = s',
                                        calendar = (calendar a)\<lparr>dragState := None\<rparr>\<rparr>))))))"

section \<open>Notions of the specification\<close>

text \<open>
  The specification's \<^verbatim>\<open>intervalsOverlap(aStart, aEnd, bStart, bEnd)\<close>, in its words:
  \<^verbatim>\<open>aStart <= bEnd && bStart <= aEnd\<close>.
\<close>

definition intervalsOverlap :: "day \<Rightarrow> day \<Rightarrow> day \<Rightarrow> day \<Rightarrow> bool" where
  "intervalsOverlap aStart aEnd bStart bEnd = (aStart \<le> bEnd \<and> bStart \<le> aEnd)"

text \<open>Well-formed dates: \<^verbatim>\<open>startDate <= endDate\<close>.\<close>

definition wellFormed :: "'a ReservationDraft_scheme \<Rightarrow> bool" where
  "wellFormed r = (startDate r \<le> endDate r)"

text \<open>
  The stored reservations \<^verbatim>\<open>checkConflict\<close> compares the candidate with: same apartment,
  and an id other than the exclusion id.
\<close>

definition rivals ::
  "Reservation list \<Rightarrow> 'a ReservationDraft_scheme \<Rightarrow> string option \<Rightarrow> Reservation list" where
  "rivals rs c excludeId =
     filter (\<lambda>r. Some (rid r) \<noteq> excludeId \<and> apartment r = apartment c) rs"

text \<open>
  The global invariant: no two distinct stored reservations of one apartment have
  overlapping closed intervals.
\<close>

definition noOverlap :: "Reservation list \<Rightarrow> bool" where
  "noOverlap rs =
     (\<forall>a \<in> set rs. \<forall>b \<in> set rs.
        a \<noteq> b \<and> apartment a = apartment b
          \<longrightarrow> \<not> intervalsOverlap (startDate a) (endDate a) (startDate b) (endDate b))"

text \<open>
  The same invariant by positions in the collection: no two entries at different
  positions, of one apartment, overlap. It is the invariant above when the collection has
  no entry twice.
\<close>

fun noOverlapAt :: "Reservation list \<Rightarrow> bool" where
  "noOverlapAt [] = True"
| "noOverlapAt (x # xs) =
     ((\<forall>y \<in> set xs. apartment x = apartment y
         \<longrightarrow> \<not> intervalsOverlap (startDate x) (endDate x) (startDate y) (endDate y))
      \<and> noOverlapAt xs)"

text \<open>
  The states of the two gesture machines, read off the component's state variables.
  The selection machine is \<open>Idle\<close> when \<^verbatim>\<open>isSelecting\<close> is false and \<open>AnchorSet anchor\<close>
  when it is true with \<^verbatim>\<open>selectedRange.start\<close> the anchor. The drag machine is \<open>Idle\<close>
  without a \<^verbatim>\<open>dragState\<close>, \<open>Armed\<close> with one that is not active, \<open>Previewing\<close> with an
  active one that holds a proposed range.
\<close>

definition selIdle :: "App \<Rightarrow> bool" where
  "selIdle a = (\<not> isSelecting (calendar a))"

definition selAnchorSet :: "day \<Rightarrow> App \<Rightarrow> bool" where
  "selAnchorSet anchor a =
     (isSelecting (calendar a) \<and> fst (selectedRange (calendar a)) = Some anchor)"

definition dragIdle :: "App \<Rightarrow> bool" where
  "dragIdle a = (dragState (calendar a) = None)"

definition dragArmed :: "Reservation \<Rightarrow> App \<Rightarrow> bool" where
  "dragArmed r a =
     (dragState (calendar a) =
        Some \<lparr>reservationId = rid r, originalReservation = r, isActive = False,
              newStartDate = None, newEndDate = None\<rparr>)"

definition dragPreviewing :: "Reservation \<Rightarrow> day \<Rightarrow> day \<Rightarrow> App \<Rightarrow> bool" where
  "dragPreviewing r proposedStart proposedEnd a =
     (dragState (calendar a) =
        Some \<lparr>reservationId = rid r, originalReservation = r, isActive = True,
              newStartDate = Some proposedStart, newEndDate = Some proposedEnd\<rparr>)"

text \<open>
  The right-hand side of the conflict criterion, in the specification's words: some
  stored reservation with the same apartment, an id different from the exclusion id,
  and well-formed dates has a closed interval intersecting the candidate's.
\<close>

definition conflictSpec ::
  "Reservation list \<Rightarrow> 'a ReservationDraft_scheme \<Rightarrow> string option \<Rightarrow> bool" where
  "conflictSpec rs c excludeId =
     (\<exists>r \<in> set rs. apartment r = apartment c \<and> Some (rid r) \<noteq> excludeId \<and> wellFormed r
        \<and> intervalsOverlap (startDate c) (endDate c) (startDate r) (endDate r))"

text \<open>
  The stored reservations whose interval overlaps the candidate's: the reservations a
  conflict is with.
\<close>

definition conflicting ::
  "Reservation list \<Rightarrow> 'a ReservationDraft_scheme \<Rightarrow> string option \<Rightarrow> Reservation list" where
  "conflicting rs c excludeId =
     filter (\<lambda>r. intervalsOverlap (startDate c) (endDate c) (startDate r) (endDate r))
       (rivals rs c excludeId)"

section \<open>Example data\<close>

text \<open>
  Concrete reservations, stores and applications on which the theorems are instantiated.
  Days are numbered within one month.
\<close>

definition draft :: "string \<Rightarrow> day \<Rightarrow> day \<Rightarrow> ReservationDraft" where
  "draft apt s e =
     \<lparr>apartment = apt, clientName = ''Martin'', startDate = s, endDate = e,
      notes' = None, color = None\<rparr>"

definition res :: "string \<Rightarrow> string \<Rightarrow> day \<Rightarrow> day \<Rightarrow> Reservation" where
  "res i apt s e =
     \<lparr>apartment = apt, clientName = ''Martin'', startDate = s, endDate = e,
      notes' = None, color = None, rid = i\<rparr>"

definition storeOf :: "Reservation list \<Rightarrow> Store" where
  "storeOf rs = \<lparr>reservations = rs, apartments = [], error = None, persisted = Some rs\<rparr>"

definition idleCalendar :: Calendar where
  "idleCalendar =
     \<lparr>selectedRange = (None, None), isSelecting = False, dragState = None,
      isDragging = False\<rparr>"

definition previewing :: "Reservation \<Rightarrow> day \<Rightarrow> day \<Rightarrow> Calendar" where
  "previewing r ps pe =
     idleCalendar\<lparr>dragState :=
       Some \<lparr>reservationId = rid r, originalReservation = r, isActive = True,
             newStartDate = Some ps, newEndDate = Some pe\<rparr>\<rparr>"

definition armed :: "Reservation \<Rightarrow> Calendar" where
  "armed r =
     idleCalendar\<lparr>dragState :=
       Some \<lparr>reservationId = rid r, originalReservation = r, isActive = False,
             newStartDate = None, newEndDate = None\<rparr>,
       isDragging := True\<rparr>"

section \<open>The conflict test\<close>

text \<open>How \<open>some\<close> evaluates when the callback never throws, and when it returns false.\<close>

lemma some_pointwise:
  "(\<And>x. x \<in> set xs \<Longrightarrow> p x = Inr (q x)) \<Longrightarrow> some p xs = Inr (\<exists>x \<in> set xs. q x)"
  by (induction xs) (auto split: bool.splits)

lemma some_False_all:
  "some p xs = Inr False \<Longrightarrow> x \<in> set xs \<Longrightarrow> p x = Inr False"
  by (induction xs) (auto split: sum.splits bool.splits if_splits)

lemma isWithinInterval_wf:
  "start \<le> end' \<Longrightarrow> isWithinInterval v date start end' = Inr (start \<le> date \<and> date \<le> end')"
  by (cases v) auto

lemma overlapTest_wf:
  "ns \<le> ne \<Longrightarrow> startDate r \<le> endDate r \<Longrightarrow>
   overlapTest v ns ne r = Inr (intervalsOverlap ns ne (startDate r) (endDate r))"
  by (auto simp: overlapTest_def isWithinInterval_wf intervalsOverlap_def Let_def split: bool.splits)

lemma overlapTest_False:
  "overlapTest v ns ne r = Inr False \<Longrightarrow> \<not> intervalsOverlap ns ne (startDate r) (endDate r)"
  by (cases v) (auto simp: overlapTest_def intervalsOverlap_def Let_def split: if_splits sum.splits bool.splits)

lemma checkConflict_False:
  "checkConflict v rs c ex = Inr False \<Longrightarrow> r \<in> set (rivals rs c ex) \<Longrightarrow>
   \<not> intervalsOverlap (startDate c) (endDate c) (startDate r) (endDate r)"
  unfolding checkConflict_def rivals_def Let_def
  by (rule overlapTest_False, rule some_False_all)

lemma checkConflict_wf:
  assumes "wellFormed c" and "\<And>r. r \<in> set (rivals rs c ex) \<Longrightarrow> wellFormed r"
  shows "checkConflict v rs c ex =
     Inr (\<exists>r \<in> set (rivals rs c ex).
            intervalsOverlap (startDate c) (endDate c) (startDate r) (endDate r))"
  unfolding checkConflict_def Let_def rivals_def[symmetric]
  using assms by (intro some_pointwise overlapTest_wf) (auto simp: wellFormed_def)

lemma conflictSpec_rivals:
  "(\<And>r. r \<in> set (rivals rs c ex) \<Longrightarrow> wellFormed r) \<Longrightarrow>
   conflictSpec rs c ex = (\<exists>r \<in> set (rivals rs c ex).
            intervalsOverlap (startDate c) (endDate c) (startDate r) (endDate r))"
  by (auto simp: conflictSpec_def rivals_def)


text \<open>
  On well-formed intervals the specification's test is the intersection of the closed
  intervals.
\<close>

lemma intervalsOverlap_closed:
  "aS \<le> aE \<Longrightarrow> bS \<le> bE \<Longrightarrow>
   intervalsOverlap aS aE bS bE \<longleftrightarrow> {aS..aE} \<inter> {bS..bE} \<noteq> {}"
proof -
  assume wf: "aS \<le> aE" "bS \<le> bE"
  show ?thesis
  proof
    assume "intervalsOverlap aS aE bS bE"
    with wf have "max aS bS \<in> {aS..aE} \<inter> {bS..bE}"
      by (simp add: intervalsOverlap_def)
    then show "{aS..aE} \<inter> {bS..bE} \<noteq> {}" by blast
  next
    assume "{aS..aE} \<inter> {bS..bE} \<noteq> {}"
    then obtain x where "x \<in> {aS..aE}" and "x \<in> {bS..bE}" by blast
    then show "intervalsOverlap aS aE bS bE"
      by (simp add: intervalsOverlap_def)
  qed
qed

text \<open>
  Claim C1, amended. For every candidate with well-formed dates, every optional
  exclusion id and every store in which each reservation of the candidate's apartment
  with an id other than the exclusion id has well-formed dates, \<open>checkConflict\<close> returns,
  and returns true if and only if some stored reservation with the same apartment, an id
  different from the exclusion id, and well-formed dates has a closed interval
  intersecting the candidate's. On each of these reservations the test of the code is
  \<open>aStart \<le> bEnd \<and> bStart \<le> aEnd\<close>; a shared boundary day is a conflict; and the
  test gives the same result with the two intervals exchanged.
\<close>

theorem checkConflict_iff_overlap:
  assumes "wellFormed c" and "\<forall>r \<in> set (rivals rs c ex). wellFormed r"
  shows "checkConflict v rs c ex = Inr (conflictSpec rs c ex)
     \<and> (\<forall>r \<in> set (rivals rs c ex).
          overlapTest v (startDate c) (endDate c) r
            = Inr (startDate c \<le> endDate r \<and> startDate r \<le> endDate c))
     \<and> (\<forall>r \<in> set (rivals rs c ex).
          endDate r = startDate c \<or> endDate c = startDate r
            \<longrightarrow> checkConflict v rs c ex = Inr True)
     \<and> (\<forall>r \<in> set (rivals rs c ex).
          overlapTest v (startDate r) (endDate r) (res i (apartment c) (startDate c) (endDate c))
            = overlapTest v (startDate c) (endDate c) r)"
proof -
  have wf: "\<And>r. r \<in> set (rivals rs c ex) \<Longrightarrow> wellFormed r"
    using assms(2) by blast
  have "checkConflict v rs c ex = Inr (\<exists>r \<in> set (rivals rs c ex).
      intervalsOverlap (startDate c) (endDate c) (startDate r) (endDate r))"
    by (rule checkConflict_wf) (use assms(1) wf in auto)
  moreover have "conflictSpec rs c ex = (\<exists>r \<in> set (rivals rs c ex).
      intervalsOverlap (startDate c) (endDate c) (startDate r) (endDate r))"
    by (rule conflictSpec_rivals) (use wf in auto)
  ultimately have main: "checkConflict v rs c ex = Inr (conflictSpec rs c ex)"
    by simp
  have test: "overlapTest v (startDate c) (endDate c) r
      = Inr (startDate c \<le> endDate r \<and> startDate r \<le> endDate c)"
    if "r \<in> set (rivals rs c ex)" for r
    using overlapTest_wf [of "startDate c" "endDate c" r v] wf [OF that] assms(1)
    by (simp add: wellFormed_def intervalsOverlap_def)
  have boundary: "checkConflict v rs c ex = Inr True"
    if "r \<in> set (rivals rs c ex)" and "endDate r = startDate c \<or> endDate c = startDate r" for r
  proof -
    have "intervalsOverlap (startDate c) (endDate c) (startDate r) (endDate r)"
      using that(2) wf [OF that(1)] assms(1)
      by (auto simp: wellFormed_def intervalsOverlap_def)
    then have "conflictSpec rs c ex"
      using that(1) wf [OF that(1)] by (auto simp: conflictSpec_def rivals_def)
    with main show ?thesis by simp
  qed
  have sym: "overlapTest v (startDate r) (endDate r) (res i (apartment c) (startDate c) (endDate c))
      = overlapTest v (startDate c) (endDate c) r"
    if "r \<in> set (rivals rs c ex)" for r
    using overlapTest_wf [of "startDate r" "endDate r" "res i (apartment c) (startDate c) (endDate c)" v]
      test [OF that] wf [OF that] assms(1)
    by (auto simp: wellFormed_def intervalsOverlap_def res_def)
  from main test boundary sym show ?thesis by blast
qed

text \<open>
  The touching-boundary case of the specification: a stored reservation over days 1 to 5
  and a candidate over days 5 to 10 in the same apartment.
\<close>

theorem checkConflict_iff_overlap_witness:
  "wellFormed (draft ''A'' 5 10)
   \<and> rivals [res ''1'' ''A'' 1 5] (draft ''A'' 5 10) None = [res ''1'' ''A'' 1 5]
   \<and> wellFormed (res ''1'' ''A'' 1 5)
   \<and> checkConflict V2 [res ''1'' ''A'' 1 5] (draft ''A'' 5 10) None = Inr True
   \<and> conflictSpec [res ''1'' ''A'' 1 5] (draft ''A'' 5 10) None"
  using checkConflict_iff_overlap [of "draft ''A'' 5 10" "[res ''1'' ''A'' 1 5]" None V2]
  by (simp add: wellFormed_def rivals_def conflictSpec_def intervalsOverlap_def draft_def res_def)

text \<open>
  Claim C1 as stated, for any store, fails where a stored reservation of the apartment
  has its start after its end. With date-fns 3 the reversed interval 10 to 5 is sorted
  and the candidate 9 to 11 conflicts with it, though no stored reservation with
  well-formed dates exists. With date-fns 2 the reversed interval makes \<open>checkConflict\<close>
  throw before it reaches the well-formed reservation 9 to 11 that does intersect the
  candidate.
\<close>

theorem checkConflict_ill_formed_counterexample:
  "wellFormed (draft ''A'' 9 11)
   \<and> checkConflict V3 [res ''1'' ''A'' 10 5] (draft ''A'' 9 11) None = Inr True
   \<and> \<not> conflictSpec [res ''1'' ''A'' 10 5] (draft ''A'' 9 11) None
   \<and> checkConflict V2 [res ''1'' ''A'' 10 5, res ''2'' ''A'' 9 11] (draft ''A'' 9 11) None
       = Inl (RangeError ''Invalid interval'')
   \<and> conflictSpec [res ''1'' ''A'' 10 5, res ''2'' ''A'' 9 11] (draft ''A'' 9 11) None"
  by (simp add: wellFormed_def checkConflict_def overlapTest_def conflictSpec_def
      intervalsOverlap_def draft_def res_def)

section \<open>The invariant of the store\<close>

lemma intervalsOverlap_commute:
  "intervalsOverlap aS aE bS bE = intervalsOverlap bS bE aS aE"
  by (auto simp: intervalsOverlap_def)

text \<open>What a mutation that returns has done.\<close>

lemma saveReservations_Inr:
  "saveReservations w new s = (Inr x, s') \<Longrightarrow> w \<and> reservations s' = new"
  by (auto simp: saveReservations_def split: if_splits)

lemma addReservation_Inr:
  assumes "addReservation v w now d s = (Inr r, s')"
  shows "checkConflict v (reservations s) d None = Inr False
     \<and> reservations s' = reservations s @ [r]
     \<and> apartment r = apartment d \<and> startDate r = startDate d \<and> endDate r = endDate d"
  using assms
  by (auto simp: addReservation_def Let_def saveReservations_def
      split: sum.splits bool.splits if_splits prod.splits)

lemma updateReservation_Inr:
  assumes "updateReservation v w i u s = (Inr r, s')"
  shows "\<exists>e. find (\<lambda>r. rid r = i) (reservations s) = Some e
     \<and> checkConflict v (reservations s) (mergeUpdates e u) (Some i) = Inr False
     \<and> reservations s' = map (\<lambda>x. if rid x = i then r else x) (reservations s)
     \<and> apartment r = apartment (mergeUpdates e u)
     \<and> startDate r = startDate (mergeUpdates e u) \<and> endDate r = endDate (mergeUpdates e u)"
  using assms
  by (auto simp: updateReservation_def Let_def saveReservations_def
      split: sum.splits bool.splits if_splits prod.splits option.splits)

lemma deleteReservation_Inr:
  assumes "deleteReservation w i s = (Inr x, s')"
  shows "reservations s' = filter (\<lambda>r. rid r \<noteq> i) (reservations s)"
  using assms by (auto simp: deleteReservation_def Let_def saveReservations_def split: if_splits)

text \<open>The invariant under the three ways the collection is rebuilt.\<close>

lemma noOverlap_append:
  assumes inv: "noOverlap rs"
    and new: "\<And>b. b \<in> set rs \<Longrightarrow> apartment b = apartment n \<Longrightarrow>
        \<not> intervalsOverlap (startDate n) (endDate n) (startDate b) (endDate b)"
  shows "noOverlap (rs @ [n])"
  unfolding noOverlap_def
proof (intro ballI impI)
  fix a b
  assume a: "a \<in> set (rs @ [n])" and b: "b \<in> set (rs @ [n])"
    and ab: "a \<noteq> b \<and> apartment a = apartment b"
  show "\<not> intervalsOverlap (startDate a) (endDate a) (startDate b) (endDate b)"
  proof (cases "a = n")
    case True
    with ab b have "b \<in> set rs" and "apartment b = apartment n" by auto
    with new True show ?thesis by blast
  next
    case an: False
    show ?thesis
    proof (cases "b = n")
      case True
      with ab a an have "a \<in> set rs" and "apartment a = apartment n" by auto
      with new True show ?thesis
        using intervalsOverlap_commute by blast
    next
      case False
      with an a b have "a \<in> set rs" and "b \<in> set rs" by auto
      with inv ab show ?thesis unfolding noOverlap_def by blast
    qed
  qed
qed

lemma noOverlap_replace:
  assumes inv: "noOverlap rs"
    and new: "\<And>b. b \<in> set rs \<Longrightarrow> rid b \<noteq> i \<Longrightarrow> apartment b = apartment n \<Longrightarrow>
        \<not> intervalsOverlap (startDate n) (endDate n) (startDate b) (endDate b)"
  shows "noOverlap (map (\<lambda>x. if rid x = i then n else x) rs)"
  unfolding noOverlap_def
proof (intro ballI impI)
  fix a b
  let ?rs' = "map (\<lambda>x. if rid x = i then n else x) rs"
  assume a: "a \<in> set ?rs'" and b: "b \<in> set ?rs'"
    and ab: "a \<noteq> b \<and> apartment a = apartment b"
  have mem: "x = n \<or> (x \<in> set rs \<and> rid x \<noteq> i)" if "x \<in> set ?rs'" for x
    using that by (auto split: if_splits)
  show "\<not> intervalsOverlap (startDate a) (endDate a) (startDate b) (endDate b)"
  proof (cases "a = n")
    case True
    with ab mem [OF b] have "b \<in> set rs" "rid b \<noteq> i" "apartment b = apartment n" by auto
    with new True show ?thesis by blast
  next
    case an: False
    show ?thesis
    proof (cases "b = n")
      case True
      with ab mem [OF a] an have "a \<in> set rs" "rid a \<noteq> i" "apartment a = apartment n" by auto
      with new True show ?thesis
        using intervalsOverlap_commute by blast
    next
      case False
      with an mem [OF a] mem [OF b] have "a \<in> set rs" and "b \<in> set rs" by auto
      with inv ab show ?thesis unfolding noOverlap_def by blast
    qed
  qed
qed

lemma noOverlap_filter: "noOverlap rs \<Longrightarrow> noOverlap (filter P rs)"
  unfolding noOverlap_def by auto

lemma addReservation_noOverlap:
  assumes "noOverlap (reservations s)" and "addReservation v w now d s = (Inr r, s')"
  shows "noOverlap (reservations s')"
proof -
  from addReservation_Inr [OF assms(2)]
  have cc: "checkConflict v (reservations s) d None = Inr False"
    and rs': "reservations s' = reservations s @ [r]"
    and same: "apartment r = apartment d" "startDate r = startDate d" "endDate r = endDate d"
    by simp_all
  have "\<not> intervalsOverlap (startDate r) (endDate r) (startDate b) (endDate b)"
    if "b \<in> set (reservations s)" and "apartment b = apartment r" for b
  proof -
    from that same have "b \<in> set (rivals (reservations s) d None)"
      by (simp add: rivals_def)
    from checkConflict_False [OF cc this] same show ?thesis by simp
  qed
  with assms(1) show ?thesis unfolding rs' by (intro noOverlap_append)
qed

lemma updateReservation_noOverlap:
  assumes "noOverlap (reservations s)" and "updateReservation v w i u s = (Inr r, s')"
  shows "noOverlap (reservations s')"
proof -
  from updateReservation_Inr [OF assms(2)] obtain e
    where cc: "checkConflict v (reservations s) (mergeUpdates e u) (Some i) = Inr False"
    and rs': "reservations s' = map (\<lambda>x. if rid x = i then r else x) (reservations s)"
    and same: "apartment r = apartment (mergeUpdates e u)"
      "startDate r = startDate (mergeUpdates e u)" "endDate r = endDate (mergeUpdates e u)"
    by blast
  have "\<not> intervalsOverlap (startDate r) (endDate r) (startDate b) (endDate b)"
    if "b \<in> set (reservations s)" and "rid b \<noteq> i" and "apartment b = apartment r" for b
  proof -
    from that same have "b \<in> set (rivals (reservations s) (mergeUpdates e u) (Some i))"
      by (simp add: rivals_def)
    from checkConflict_False [OF cc this] same show ?thesis by simp
  qed
  with assms(1) show ?thesis unfolding rs' by (intro noOverlap_replace)
qed

lemma deleteReservation_noOverlap:
  assumes "noOverlap (reservations s)" and "deleteReservation w i s = (Inr x, s')"
  shows "noOverlap (reservations s')"
  using assms(1) unfolding deleteReservation_Inr [OF assms(2)] by (rule noOverlap_filter)

text \<open>
  Claim C2. Starting from any store state in which no two distinct reservations with
  equal apartment have overlapping closed intervals, every \<open>addReservation\<close>,
  \<open>updateReservation\<close> or \<open>deleteReservation\<close> that returns (throws nothing) yields a
  state with the same property.
\<close>

theorem mutations_preserve_noOverlap:
  assumes "noOverlap (reservations s)"
  shows "(\<forall>r s'. addReservation v w now d s = (Inr r, s') \<longrightarrow> noOverlap (reservations s'))
     \<and> (\<forall>r s'. updateReservation v w i u s = (Inr r, s') \<longrightarrow> noOverlap (reservations s'))
     \<and> (\<forall>s'. deleteReservation w i s = (Inr (), s') \<longrightarrow> noOverlap (reservations s'))"
  using assms addReservation_noOverlap updateReservation_noOverlap deleteReservation_noOverlap
  by blast


text \<open>
  One stored reservation over days 1 to 5: adding days 6 to 10 in the same apartment,
  moving the stored one to days 7 to 11, and deleting it.
\<close>

theorem mutations_preserve_noOverlap_witness:
  "noOverlap (reservations (storeOf [res ''1'' ''A'' 1 5]))
   \<and> addReservation V2 True ''2'' (draft ''A'' 6 10) (storeOf [res ''1'' ''A'' 1 5])
       = (Inr ((res ''2'' ''A'' 6 10)\<lparr>color := Some fallbackColor\<rparr>),
          storeOf [res ''1'' ''A'' 1 5, (res ''2'' ''A'' 6 10)\<lparr>color := Some fallbackColor\<rparr>])
   \<and> noOverlap [res ''1'' ''A'' 1 5, (res ''2'' ''A'' 6 10)\<lparr>color := Some fallbackColor\<rparr>]
   \<and> updateReservation V2 True ''1'' (noUpdates\<lparr>updStartDate := Some 7, updEndDate := Some 11\<rparr>)
         (storeOf [res ''1'' ''A'' 1 5])
       = (Inr (res ''1'' ''A'' 7 11), storeOf [res ''1'' ''A'' 7 11])
   \<and> noOverlap [res ''1'' ''A'' 7 11]
   \<and> deleteReservation True ''1'' (storeOf [res ''1'' ''A'' 1 5]) = (Inr (), storeOf [])
   \<and> noOverlap []"
proof -
  let ?s = "storeOf [res ''1'' ''A'' 1 5]"
  let ?u = "noUpdates\<lparr>updStartDate := Some 7, updEndDate := Some 11\<rparr>"
  have inv: "noOverlap (reservations ?s)"
    by (simp add: noOverlap_def storeOf_def)
  have add: "addReservation V2 True ''2'' (draft ''A'' 6 10) ?s
       = (Inr ((res ''2'' ''A'' 6 10)\<lparr>color := Some fallbackColor\<rparr>),
          storeOf [res ''1'' ''A'' 1 5, (res ''2'' ''A'' 6 10)\<lparr>color := Some fallbackColor\<rparr>])"
    by (simp add: addReservation_def checkConflict_def overlapTest_def saveReservations_def
        colorOrFallback_def storeOf_def res_def draft_def Let_def)
  have upd: "updateReservation V2 True ''1'' ?u ?s
       = (Inr (res ''1'' ''A'' 7 11), storeOf [res ''1'' ''A'' 7 11])"
    by (simp add: updateReservation_def checkConflict_def overlapTest_def saveReservations_def
        mergeUpdates_def noUpdates_def storeOf_def res_def Let_def)
  have del: "deleteReservation True ''1'' ?s = (Inr (), storeOf [])"
    by (simp add: deleteReservation_def saveReservations_def storeOf_def res_def)
  from mutations_preserve_noOverlap [OF inv, of V2 True "''2''" "draft ''A'' 6 10" "''1''" ?u]
    add upd del inv
  show ?thesis by (simp add: storeOf_def)
qed

text \<open>
  The invariant by positions is preserved as well; by \<open>updateReservation\<close> when the ids
  of the collection are unique (it replaces every entry that has the id).
\<close>

lemma noOverlapAt_append:
  "noOverlapAt (xs @ [n]) \<longleftrightarrow>
     noOverlapAt xs \<and> (\<forall>x \<in> set xs. apartment x = apartment n
         \<longrightarrow> \<not> intervalsOverlap (startDate x) (endDate x) (startDate n) (endDate n))"
  by (induction xs) auto

lemma noOverlapAt_filter: "noOverlapAt xs \<Longrightarrow> noOverlapAt (filter P xs)"
  by (induction xs) auto

lemma noOverlapAt_noOverlap: "noOverlapAt xs \<Longrightarrow> noOverlap xs"
proof (induction xs)
  case Nil
  then show ?case by (simp add: noOverlap_def)
next
  case (Cons x xs)
  then have tl: "noOverlap xs" by simp
  from Cons.prems have hd: "\<forall>y \<in> set xs. apartment x = apartment y
      \<longrightarrow> \<not> intervalsOverlap (startDate x) (endDate x) (startDate y) (endDate y)"
    by simp
  show ?case
    unfolding noOverlap_def
  proof (intro ballI impI)
    fix a b
    assume "a \<in> set (x # xs)" "b \<in> set (x # xs)" "a \<noteq> b \<and> apartment a = apartment b"
    then show "\<not> intervalsOverlap (startDate a) (endDate a) (startDate b) (endDate b)"
      using tl hd intervalsOverlap_commute unfolding noOverlap_def
      by (metis set_ConsD)
  qed
qed

lemma noOverlapAt_replace:
  assumes "noOverlapAt rs" and "distinct (map rid rs)"
    and "\<And>b. b \<in> set rs \<Longrightarrow> rid b \<noteq> i \<Longrightarrow> apartment b = apartment n \<Longrightarrow>
        \<not> intervalsOverlap (startDate n) (endDate n) (startDate b) (endDate b)"
    and "rid n = i"
  shows "noOverlapAt (map (\<lambda>x. if rid x = i then n else x) rs)"
  using assms
proof (induction rs)
  case Nil
  then show ?case by simp
next
  case (Cons x xs)
  show ?case
  proof (cases "rid x = i")
    case True
    from Cons.prems(2) have "rid x \<notin> set (map rid xs)" by simp
    with True have others: "\<forall>y \<in> set xs. rid y \<noteq> i"
      by (metis image_eqI set_map)
    then have same: "map (\<lambda>x. if rid x = i then n else x) xs = xs"
      by (induction xs) auto
    from Cons.prems(1) have "noOverlapAt xs" by simp
    with True same others Cons.prems(3) show ?thesis by auto
  next
    case False
    from Cons.prems have IH: "noOverlapAt (map (\<lambda>x. if rid x = i then n else x) xs)"
      by (intro Cons.IH) auto
    have "\<not> intervalsOverlap (startDate x) (endDate x) (startDate y) (endDate y)"
      if "y \<in> set (map (\<lambda>x. if rid x = i then n else x) xs)" and "apartment x = apartment y" for y
    proof (cases "y = n")
      case True
      with Cons.prems(3) [of x] False that(2) show ?thesis
        using intervalsOverlap_commute by auto
    next
      case False
      with that(1) have "y \<in> set xs" by (auto split: if_splits)
      with Cons.prems(1) that(2) show ?thesis by auto
    qed
    with IH False show ?thesis by auto
  qed
qed

lemma mutations_preserve_noOverlapAt:
  assumes "noOverlapAt (reservations s)"
  shows "(\<forall>r s'. addReservation v w now d s = (Inr r, s') \<longrightarrow> noOverlapAt (reservations s'))
     \<and> (\<forall>r s'. distinct (map rid (reservations s))
            \<and> updateReservation v w i u s = (Inr r, s') \<longrightarrow> noOverlapAt (reservations s'))
     \<and> (\<forall>s'. deleteReservation w i s = (Inr (), s') \<longrightarrow> noOverlapAt (reservations s'))"
proof (intro conjI allI impI)
  fix r s'
  assume run: "addReservation v w now d s = (Inr r, s')"
  from addReservation_Inr [OF run]
  have cc: "checkConflict v (reservations s) d None = Inr False"
    and rs': "reservations s' = reservations s @ [r]"
    and same: "apartment r = apartment d" "startDate r = startDate d" "endDate r = endDate d"
    by simp_all
  have "\<not> intervalsOverlap (startDate b) (endDate b) (startDate r) (endDate r)"
    if "b \<in> set (reservations s)" and "apartment b = apartment r" for b
  proof -
    from that same have "b \<in> set (rivals (reservations s) d None)"
      by (simp add: rivals_def)
    from checkConflict_False [OF cc this] same show ?thesis
      using intervalsOverlap_commute by simp
  qed
  with assms show "noOverlapAt (reservations s')"
    unfolding rs' noOverlapAt_append by blast
next
  fix r s'
  assume "distinct (map rid (reservations s)) \<and> updateReservation v w i u s = (Inr r, s')"
  then have ids: "distinct (map rid (reservations s))"
    and run: "updateReservation v w i u s = (Inr r, s')" by simp_all
  from updateReservation_Inr [OF run] obtain e
    where fnd: "find (\<lambda>r. rid r = i) (reservations s) = Some e"
    and cc: "checkConflict v (reservations s) (mergeUpdates e u) (Some i) = Inr False"
    and rs': "reservations s' = map (\<lambda>x. if rid x = i then r else x) (reservations s)"
    and same: "apartment r = apartment (mergeUpdates e u)"
      "startDate r = startDate (mergeUpdates e u)" "endDate r = endDate (mergeUpdates e u)"
    by blast
  have "\<not> intervalsOverlap (startDate r) (endDate r) (startDate b) (endDate b)"
    if "b \<in> set (reservations s)" and "rid b \<noteq> i" and "apartment b = apartment r" for b
  proof -
    from that same have "b \<in> set (rivals (reservations s) (mergeUpdates e u) (Some i))"
      by (simp add: rivals_def)
    from checkConflict_False [OF cc this] same show ?thesis by simp
  qed
  moreover have "rid r = i"
    using run fnd
    by (auto simp: updateReservation_def Let_def mergeUpdates_def saveReservations_def
        find_Some_iff split: sum.splits bool.splits if_splits option.splits)
  ultimately show "noOverlapAt (reservations s')"
    unfolding rs' using assms ids by (intro noOverlapAt_replace)
next
  fix s'
  assume run: "deleteReservation w i s = (Inr (), s')"
  show "noOverlapAt (reservations s')"
    unfolding deleteReservation_Inr [OF run] using assms by (rule noOverlapAt_filter)
qed

section \<open>Failure of the persistence write\<close>

lemma saveReservations_fails:
  "saveReservations False new s = (Inl (Error msgSaveThrown), s\<lparr>error := Some msgSaveError\<rparr>)"
  by (simp add: saveReservations_def)

lemma addReservation_unwritable:
  "(\<exists>e. fst (addReservation v False now d s) = Inl e)
   \<and> reservations (snd (addReservation v False now d s)) = reservations s
   \<and> persisted (snd (addReservation v False now d s)) = persisted s"
  by (simp add: addReservation_def saveReservations_fails Let_def
      split: sum.splits bool.splits)

lemma updateReservation_unwritable:
  "(\<exists>e. fst (updateReservation v False i u s) = Inl e)
   \<and> reservations (snd (updateReservation v False i u s)) = reservations s
   \<and> persisted (snd (updateReservation v False i u s)) = persisted s"
  by (simp add: updateReservation_def saveReservations_fails Let_def
      split: sum.splits bool.splits option.splits)

lemma deleteReservation_unwritable:
  "fst (deleteReservation False i s) = Inl (Error msgSaveThrown)
   \<and> reservations (snd (deleteReservation False i s)) = reservations s
   \<and> persisted (snd (deleteReservation False i s)) = persisted s"
  by (simp add: deleteReservation_def saveReservations_fails Let_def)

lemma addReservation_write_fails:
  "checkConflict v (reservations s) d None = Inr False \<Longrightarrow>
   addReservation v False now d s = (Inl (Error msgSaveThrown), s\<lparr>error := Some msgSaveError\<rparr>)"
  by (simp add: addReservation_def saveReservations_fails Let_def)

lemma updateReservation_write_fails:
  "find (\<lambda>r. rid r = i) (reservations s) = Some e \<Longrightarrow>
   checkConflict v (reservations s) (mergeUpdates e u) (Some i) = Inr False \<Longrightarrow>
   updateReservation v False i u s = (Inl (Error msgSaveThrown), s\<lparr>error := Some msgSaveError\<rparr>)"
  by (simp add: updateReservation_def saveReservations_fails Let_def)

text \<open>
  Claim C3. If the persistence write fails during a create, update or delete, the
  operation throws an error and the in-memory reservation collection (and the persisted
  one) is exactly as it was before the operation. Where the write is reached, the error
  thrown is that of \<open>saveReservations\<close>.
\<close>

theorem write_failure_keeps_collection:
  "(\<exists>e. fst (addReservation v False now d s) = Inl e)
   \<and> reservations (snd (addReservation v False now d s)) = reservations s
   \<and> persisted (snd (addReservation v False now d s)) = persisted s
   \<and> (\<exists>e. fst (updateReservation v False i u s) = Inl e)
   \<and> reservations (snd (updateReservation v False i u s)) = reservations s
   \<and> persisted (snd (updateReservation v False i u s)) = persisted s
   \<and> fst (deleteReservation False j s) = Inl (Error msgSaveThrown)
   \<and> reservations (snd (deleteReservation False j s)) = reservations s
   \<and> persisted (snd (deleteReservation False j s)) = persisted s
   \<and> (checkConflict v (reservations s) d None = Inr False
        \<longrightarrow> fst (addReservation v False now d s) = Inl (Error msgSaveThrown))
   \<and> (\<forall>ex. find (\<lambda>r. rid r = i) (reservations s) = Some ex
          \<and> checkConflict v (reservations s) (mergeUpdates ex u) (Some i) = Inr False
        \<longrightarrow> fst (updateReservation v False i u s) = Inl (Error msgSaveThrown))"
  using addReservation_unwritable [of v now d s] updateReservation_unwritable [of v i u s]
    deleteReservation_unwritable [of j s] addReservation_write_fails [of v s d now]
    updateReservation_write_fails [of i s _ v u]
  by simp

text \<open>The three operations on a store with one reservation, the write failing.\<close>

theorem write_failure_keeps_collection_witness:
  "checkConflict V3 (reservations (storeOf [res ''1'' ''A'' 1 5])) (draft ''A'' 6 10) None
     = Inr False
   \<and> addReservation V3 False ''2'' (draft ''A'' 6 10) (storeOf [res ''1'' ''A'' 1 5])
       = (Inl (Error msgSaveThrown), (storeOf [res ''1'' ''A'' 1 5])\<lparr>error := Some msgSaveError\<rparr>)
   \<and> find (\<lambda>r. rid r = ''1'') (reservations (storeOf [res ''1'' ''A'' 1 5]))
       = Some (res ''1'' ''A'' 1 5)
   \<and> fst (updateReservation V3 False ''1'' (noUpdates\<lparr>updEndDate := Some 8\<rparr>)
            (storeOf [res ''1'' ''A'' 1 5])) = Inl (Error msgSaveThrown)
   \<and> reservations (snd (updateReservation V3 False ''1'' (noUpdates\<lparr>updEndDate := Some 8\<rparr>)
            (storeOf [res ''1'' ''A'' 1 5]))) = [res ''1'' ''A'' 1 5]
   \<and> fst (deleteReservation False ''1'' (storeOf [res ''1'' ''A'' 1 5]))
       = Inl (Error msgSaveThrown)
   \<and> reservations (snd (deleteReservation False ''1'' (storeOf [res ''1'' ''A'' 1 5])))
       = [res ''1'' ''A'' 1 5]"
proof -
  let ?s = "storeOf [res ''1'' ''A'' 1 5]"
  let ?u = "noUpdates\<lparr>updEndDate := Some 8\<rparr>"
  have cc: "checkConflict V3 (reservations ?s) (draft ''A'' 6 10) None = Inr False"
    by (simp add: checkConflict_def overlapTest_def storeOf_def res_def draft_def)
  have fnd: "find (\<lambda>r. rid r = ''1'') (reservations ?s) = Some (res ''1'' ''A'' 1 5)"
    by (simp add: storeOf_def res_def)
  have cu: "checkConflict V3 (reservations ?s) (mergeUpdates (res ''1'' ''A'' 1 5) ?u) (Some ''1'')
      = Inr False"
    by (simp add: checkConflict_def storeOf_def res_def)
  have add: "addReservation V3 False ''2'' (draft ''A'' 6 10) ?s
      = (Inl (Error msgSaveThrown), ?s\<lparr>error := Some msgSaveError\<rparr>)"
    using cc by (simp add: addReservation_def saveReservations_def)
  from write_failure_keeps_collection [of V3 "''2''" "draft ''A'' 6 10" ?s "''1''" ?u "''1''"]
    cc fnd cu add
  show ?thesis by (simp add: storeOf_def)
qed

section \<open>The drag-reschedule gesture\<close>

text \<open>The two change sets the proofs meet: new dates only, and no change.\<close>

lemma mergeUpdates_dates:
  "mergeUpdates r (noUpdates\<lparr>updStartDate := Some ps, updEndDate := Some pe\<rparr>)
     = r\<lparr>startDate := ps, endDate := pe\<rparr>"
  by (simp add: mergeUpdates_def noUpdates_def)

lemma mergeUpdates_noUpdates: "mergeUpdates r noUpdates = r"
  by (simp add: mergeUpdates_def noUpdates_def)

lemma updateReservation_dates:
  assumes "find (\<lambda>r. rid r = i) (reservations s) = Some e"
    and "checkConflict v (reservations s) (e\<lparr>startDate := ps, endDate := pe\<rparr>) (Some i) = Inr False"
  shows "updateReservation v w i (noUpdates\<lparr>updStartDate := Some ps, updEndDate := Some pe\<rparr>) s
     = (case saveReservations w
              (map (\<lambda>r. if rid r = i then e\<lparr>startDate := ps, endDate := pe\<rparr> else r)
                 (reservations s)) s of
          (Inl x, s') \<Rightarrow> (Inl x, s')
        | (Inr _, s') \<Rightarrow> (Inr (e\<lparr>startDate := ps, endDate := pe\<rparr>), s'))"
proof -
  have "updApartment (noUpdates\<lparr>updStartDate := Some ps, updEndDate := Some pe\<rparr>) = None"
    by (simp add: noUpdates_def)
  with assms show ?thesis
    by (simp add: updateReservation_def mergeUpdates_dates Let_def)
qed

text \<open>
  Claim C4, amended. On commit from the Previewing drag state: if the proposed range
  conflicts (\<open>checkConflict\<close> of the origin with the proposed dates, excluding the dragged
  reservation's id), no store mutation occurs, the conflict notice is shown and the
  machine remains in Previewing. If it does not conflict, the dragged reservation is
  stored as it was pressed, and the persistence write succeeds, then the stored
  reservations with the dragged id become the origin with exactly the proposed start and
  end dates (its id, apartment, clientName and notes unchanged), every other stored
  reservation is unchanged, and the machine returns to Idle. If the write fails instead,
  no stored reservation changes, the error message is shown, and the machine returns to
  Idle all the same.
\<close>

theorem commit_from_previewing:
  assumes "dragPreviewing R ps pe a"
  shows "(checkConflict v (reservations (store a)) (R\<lparr>startDate := ps, endDate := pe\<rparr>)
            (Some (rid R)) = Inr True
          \<longrightarrow> handleSaveDrag v w a = Inr ([Alert msgDragConflict], a))
     \<and> (checkConflict v (reservations (store a)) (R\<lparr>startDate := ps, endDate := pe\<rparr>)
            (Some (rid R)) = Inr False
          \<and> find (\<lambda>r. rid r = rid R) (reservations (store a)) = Some R \<and> w
          \<longrightarrow> handleSaveDrag v w a =
                Inr ([], \<lparr>store = (store a)
                            \<lparr>persisted := Some (map (\<lambda>r. if rid r = rid R
                                 then R\<lparr>startDate := ps, endDate := pe\<rparr> else r)
                                 (reservations (store a))),
                             reservations := map (\<lambda>r. if rid r = rid R
                                 then R\<lparr>startDate := ps, endDate := pe\<rparr> else r)
                                 (reservations (store a)),
                             error := None\<rparr>,
                          calendar = (calendar a)\<lparr>dragState := None\<rparr>\<rparr>))
     \<and> (checkConflict v (reservations (store a)) (R\<lparr>startDate := ps, endDate := pe\<rparr>)
            (Some (rid R)) = Inr False
          \<and> find (\<lambda>r. rid r = rid R) (reservations (store a)) = Some R \<and> \<not> w
          \<longrightarrow> handleSaveDrag v w a =
                Inr ([Alert msgSaveThrown],
                     \<lparr>store = (store a)\<lparr>error := Some msgSaveError\<rparr>,
                      calendar = (calendar a)\<lparr>dragState := None\<rparr>\<rparr>))"
proof -
  let ?d = "\<lparr>reservationId = rid R, originalReservation = R, isActive = True,
              newStartDate = Some ps, newEndDate = Some pe\<rparr>"
  have d: "dragState (calendar a) = Some ?d"
    using assms by (simp add: dragPreviewing_def)
  have conflict: "handleSaveDrag v w a = Inr ([Alert msgDragConflict], a)"
    if "checkConflict v (reservations (store a)) (R\<lparr>startDate := ps, endDate := pe\<rparr>)
          (Some (rid R)) = Inr True"
    using that d by (simp add: handleSaveDrag_def mergeUpdates_dates Let_def)
  have clean: "handleSaveDrag v w a =
      (case handleReservationUpdate v w (rid R)
              (noUpdates\<lparr>updStartDate := Some ps, updEndDate := Some pe\<rparr>) (store a) of
         (fx, s') \<Rightarrow> Inr (fx, \<lparr>store = s', calendar = (calendar a)\<lparr>dragState := None\<rparr>\<rparr>))"
    if "checkConflict v (reservations (store a)) (R\<lparr>startDate := ps, endDate := pe\<rparr>)
          (Some (rid R)) = Inr False"
    using that d by (simp add: handleSaveDrag_def mergeUpdates_dates Let_def)
  have written: "handleSaveDrag v w a =
      Inr ([], \<lparr>store = (store a)
                  \<lparr>persisted := Some (map (\<lambda>r. if rid r = rid R
                       then R\<lparr>startDate := ps, endDate := pe\<rparr> else r)
                       (reservations (store a))),
                   reservations := map (\<lambda>r. if rid r = rid R
                       then R\<lparr>startDate := ps, endDate := pe\<rparr> else r)
                       (reservations (store a)),
                   error := None\<rparr>,
                calendar = (calendar a)\<lparr>dragState := None\<rparr>\<rparr>)"
    if cc: "checkConflict v (reservations (store a)) (R\<lparr>startDate := ps, endDate := pe\<rparr>)
          (Some (rid R)) = Inr False"
      and fnd: "find (\<lambda>r. rid r = rid R) (reservations (store a)) = Some R" and w: "w"
    unfolding clean [OF cc] handleReservationUpdate_def updateReservation_dates [OF fnd cc]
    using w by (simp add: saveReservations_def)
  have failed: "handleSaveDrag v w a =
      Inr ([Alert msgSaveThrown],
           \<lparr>store = (store a)\<lparr>error := Some msgSaveError\<rparr>,
            calendar = (calendar a)\<lparr>dragState := None\<rparr>\<rparr>)"
    if cc: "checkConflict v (reservations (store a)) (R\<lparr>startDate := ps, endDate := pe\<rparr>)
          (Some (rid R)) = Inr False"
      and fnd: "find (\<lambda>r. rid r = rid R) (reservations (store a)) = Some R" and w: "\<not> w"
    unfolding clean [OF cc] handleReservationUpdate_def updateReservation_dates [OF fnd cc]
    using w by (simp add: saveReservations_def)
  from conflict written failed show ?thesis by blast
qed


text \<open>
  Two reservations in apartment A, days 1 to 5 and 7 to 8. Moving the first to days 10 to
  14 is committed; moving it to days 4 to 8 is rejected.
\<close>

theorem commit_from_previewing_witness:
  "dragPreviewing (res ''1'' ''A'' 1 5) 10 14
     \<lparr>store = storeOf [res ''1'' ''A'' 1 5, res ''2'' ''A'' 7 8],
      calendar = previewing (res ''1'' ''A'' 1 5) 10 14\<rparr>
   \<and> handleSaveDrag V2 True
       \<lparr>store = storeOf [res ''1'' ''A'' 1 5, res ''2'' ''A'' 7 8],
        calendar = previewing (res ''1'' ''A'' 1 5) 10 14\<rparr>
     = Inr ([], \<lparr>store = storeOf [res ''1'' ''A'' 10 14, res ''2'' ''A'' 7 8],
                 calendar = idleCalendar\<rparr>)
   \<and> dragPreviewing (res ''1'' ''A'' 1 5) 4 8
     \<lparr>store = storeOf [res ''1'' ''A'' 1 5, res ''2'' ''A'' 7 8],
      calendar = previewing (res ''1'' ''A'' 1 5) 4 8\<rparr>
   \<and> handleSaveDrag V2 True
       \<lparr>store = storeOf [res ''1'' ''A'' 1 5, res ''2'' ''A'' 7 8],
        calendar = previewing (res ''1'' ''A'' 1 5) 4 8\<rparr>
     = Inr ([Alert msgDragConflict],
            \<lparr>store = storeOf [res ''1'' ''A'' 1 5, res ''2'' ''A'' 7 8],
             calendar = previewing (res ''1'' ''A'' 1 5) 4 8\<rparr>)"
proof -
  let ?R = "res ''1'' ''A'' 1 5"
  let ?s = "storeOf [?R, res ''2'' ''A'' 7 8]"
  let ?a = "\<lparr>store = ?s, calendar = previewing ?R 10 14\<rparr>"
  let ?b = "\<lparr>store = ?s, calendar = previewing ?R 4 8\<rparr>"
  have pa: "dragPreviewing ?R 10 14 ?a" and pb: "dragPreviewing ?R 4 8 ?b"
    by (simp_all add: dragPreviewing_def previewing_def)
  have ca: "checkConflict V2 (reservations (store ?a)) (?R\<lparr>startDate := 10, endDate := 14\<rparr>)
      (Some (rid ?R)) = Inr False"
    by (simp add: checkConflict_def overlapTest_def storeOf_def res_def)
  have cb: "checkConflict V2 (reservations (store ?b)) (?R\<lparr>startDate := 4, endDate := 8\<rparr>)
      (Some (rid ?R)) = Inr True"
    by (simp add: checkConflict_def overlapTest_def storeOf_def res_def)
  have fnd: "find (\<lambda>r. rid r = rid ?R) (reservations (store ?a)) = Some ?R"
    by (simp add: storeOf_def res_def)
  from commit_from_previewing [OF pa, of V2 True] ca fnd
  have "handleSaveDrag V2 True ?a =
      Inr ([], \<lparr>store = storeOf [res ''1'' ''A'' 10 14, res ''2'' ''A'' 7 8],
                calendar = idleCalendar\<rparr>)"
    by (simp add: storeOf_def res_def previewing_def idleCalendar_def)
  moreover from commit_from_previewing [OF pb, of V2 True] cb
  have "handleSaveDrag V2 True ?b = Inr ([Alert msgDragConflict], ?b)"
    by simp
  ultimately show ?thesis using pa pb by simp
qed

text \<open>
  Claim C4 as stated fails when the persistence write fails: the proposed range 10 to 14
  does not conflict, yet after the commit the stored reservation still has days 1 to 5,
  and the machine is Idle.
\<close>

theorem commit_write_failure_counterexample:
  "dragPreviewing (res ''1'' ''A'' 1 5) 10 14
     \<lparr>store = storeOf [res ''1'' ''A'' 1 5], calendar = previewing (res ''1'' ''A'' 1 5) 10 14\<rparr>
   \<and> checkConflict V2 [res ''1'' ''A'' 1 5] ((res ''1'' ''A'' 1 5)\<lparr>startDate := 10, endDate := 14\<rparr>)
       (Some ''1'') = Inr False
   \<and> checkConflict V3 [res ''1'' ''A'' 1 5] ((res ''1'' ''A'' 1 5)\<lparr>startDate := 10, endDate := 14\<rparr>)
       (Some ''1'') = Inr False
   \<and> handleSaveDrag V2 False
       \<lparr>store = storeOf [res ''1'' ''A'' 1 5], calendar = previewing (res ''1'' ''A'' 1 5) 10 14\<rparr>
     = Inr ([Alert msgSaveThrown],
            \<lparr>store = (storeOf [res ''1'' ''A'' 1 5])\<lparr>error := Some msgSaveError\<rparr>,
             calendar = idleCalendar\<rparr>)
   \<and> handleSaveDrag V3 False
       \<lparr>store = storeOf [res ''1'' ''A'' 1 5], calendar = previewing (res ''1'' ''A'' 1 5) 10 14\<rparr>
     = Inr ([Alert msgSaveThrown],
            \<lparr>store = (storeOf [res ''1'' ''A'' 1 5])\<lparr>error := Some msgSaveError\<rparr>,
             calendar = idleCalendar\<rparr>)
   \<and> reservations ((storeOf [res ''1'' ''A'' 1 5])\<lparr>error := Some msgSaveError\<rparr>)
       = [res ''1'' ''A'' 1 5]"
  by (simp add: dragPreviewing_def previewing_def idleCalendar_def storeOf_def res_def
      handleSaveDrag_def handleReservationUpdate_def updateReservation_def
      saveReservations_def checkConflict_def mergeUpdates_def noUpdates_def Let_def)

text \<open>The state after a press on a reservation followed by a pointer move.\<close>

lemma press_then_move:
  "handleMouseMove D (handleReservationMouseDown R a)
     = a\<lparr>calendar := (calendar a)
          \<lparr>dragState := Some \<lparr>reservationId = rid R, originalReservation = R,
                               isActive = True, newStartDate = Some D,
                               newEndDate = Some (D + (endDate R - startDate R))\<rparr>,
           isDragging := True\<rparr>\<rparr>"
  by (simp add: handleMouseMove_def handleReservationMouseDown_def differenceInDays_def
      addDays_def Let_def)

text \<open>
  Claim C5. For every reservation \<open>R\<close> and every day \<open>D\<close>: pressing \<open>R\<close> then moving the
  pointer to \<open>D\<close> puts the drag machine in Previewing with proposed start \<open>D\<close> and
  proposed end \<open>D + (endDate R - startDate R)\<close>; releasing the pointer leaves the machine
  in Previewing with the same proposal, the store untouched, and later pointer moves
  ignored; cancel returns the machine to Idle with the store, hence the stored \<open>R\<close>,
  unchanged.
\<close>

theorem drag_gesture:
  "dragPreviewing R D (D + (endDate R - startDate R))
     (handleMouseMove D (handleReservationMouseDown R a))
   \<and> store (handleMouseMove D (handleReservationMouseDown R a)) = store a
   \<and> dragPreviewing R D (D + (endDate R - startDate R))
       (handleMouseUp (handleMouseMove D (handleReservationMouseDown R a)))
   \<and> store (handleMouseUp (handleMouseMove D (handleReservationMouseDown R a))) = store a
   \<and> handleMouseMove D' (handleMouseUp (handleMouseMove D (handleReservationMouseDown R a)))
       = handleMouseUp (handleMouseMove D (handleReservationMouseDown R a))
   \<and> dragIdle (handleCancelDrag
       (handleMouseUp (handleMouseMove D (handleReservationMouseDown R a))))
   \<and> store (handleCancelDrag
       (handleMouseUp (handleMouseMove D (handleReservationMouseDown R a)))) = store a"
  unfolding press_then_move
  by (simp add: dragPreviewing_def dragIdle_def handleMouseUp_def handleCancelDrag_def
      handleMouseMove_def)

text \<open>A reservation over days 15 to 20, dragged to day 12: the proposal is days 12 to 17.\<close>

theorem drag_gesture_witness:
  "handleMouseMove 12 (handleReservationMouseDown (res ''1'' ''A'' 15 20)
       \<lparr>store = storeOf [res ''1'' ''A'' 15 20], calendar = idleCalendar\<rparr>)
     = \<lparr>store = storeOf [res ''1'' ''A'' 15 20],
        calendar = (previewing (res ''1'' ''A'' 15 20) 12 17)\<lparr>isDragging := True\<rparr>\<rparr>
   \<and> handleCancelDrag (handleMouseUp (handleMouseMove 12
       (handleReservationMouseDown (res ''1'' ''A'' 15 20)
          \<lparr>store = storeOf [res ''1'' ''A'' 15 20], calendar = idleCalendar\<rparr>)))
     = \<lparr>store = storeOf [res ''1'' ''A'' 15 20], calendar = idleCalendar\<rparr>"
  using drag_gesture [of "res ''1'' ''A'' 15 20" 12
      "\<lparr>store = storeOf [res ''1'' ''A'' 15 20], calendar = idleCalendar\<rparr>" 13]
  by (simp add: handleMouseMove_def handleReservationMouseDown_def handleMouseUp_def
      handleCancelDrag_def differenceInDays_def addDays_def previewing_def idleCalendar_def
      res_def Let_def)

text \<open>
  Claim C9. Pressing a reservation in any state of the drag machine, in particular while
  another gesture is Armed or Previewing, replaces the drag state by the Armed state of
  the newly pressed reservation, with no proposed range; the store and the selection are
  not touched.
\<close>

theorem press_rearms:
  "dragArmed R (handleReservationMouseDown R a)
   \<and> store (handleReservationMouseDown R a) = store a
   \<and> selectedRange (calendar (handleReservationMouseDown R a)) = selectedRange (calendar a)
   \<and> isSelecting (calendar (handleReservationMouseDown R a)) = isSelecting (calendar a)"
  by (simp add: dragArmed_def handleReservationMouseDown_def)

text \<open>Reservation 1 is being previewed when reservation 2 is pressed.\<close>

theorem press_rearms_witness:
  "dragPreviewing (res ''1'' ''A'' 1 5) 10 14
     \<lparr>store = storeOf [res ''1'' ''A'' 1 5, res ''2'' ''B'' 3 6],
      calendar = previewing (res ''1'' ''A'' 1 5) 10 14\<rparr>
   \<and> handleReservationMouseDown (res ''2'' ''B'' 3 6)
       \<lparr>store = storeOf [res ''1'' ''A'' 1 5, res ''2'' ''B'' 3 6],
        calendar = previewing (res ''1'' ''A'' 1 5) 10 14\<rparr>
     = \<lparr>store = storeOf [res ''1'' ''A'' 1 5, res ''2'' ''B'' 3 6],
        calendar = armed (res ''2'' ''B'' 3 6)\<rparr>
   \<and> dragArmed (res ''2'' ''B'' 3 6)
       \<lparr>store = storeOf [res ''1'' ''A'' 1 5, res ''2'' ''B'' 3 6],
        calendar = armed (res ''2'' ''B'' 3 6)\<rparr>"
  using press_rearms [of "res ''2'' ''B'' 3 6"
      "\<lparr>store = storeOf [res ''1'' ''A'' 1 5, res ''2'' ''B'' 3 6],
        calendar = previewing (res ''1'' ''A'' 1 5) 10 14\<rparr>"]
  by (simp add: handleReservationMouseDown_def dragPreviewing_def dragArmed_def previewing_def
      armed_def idleCalendar_def)

text \<open>
  Claim C10. Commit while the drag state holds no proposed range (as in Armed, before
  any pointer move) is a no-op: nothing is thrown, nothing is shown, and the whole
  application state, store and drag state included, is unchanged.
\<close>

theorem commit_without_proposal:
  assumes "dragState (calendar a) = Some d"
    and "newStartDate d = None \<or> newEndDate d = None"
  shows "handleSaveDrag v w a = Inr ([], a)"
  using assms by (auto simp: handleSaveDrag_def split: option.splits)

text \<open>Commit right after a press.\<close>

theorem commit_without_proposal_witness:
  "dragArmed (res ''1'' ''A'' 1 5)
     \<lparr>store = storeOf [res ''1'' ''A'' 1 5], calendar = armed (res ''1'' ''A'' 1 5)\<rparr>
   \<and> handleSaveDrag V2 True
       \<lparr>store = storeOf [res ''1'' ''A'' 1 5], calendar = armed (res ''1'' ''A'' 1 5)\<rparr>
     = Inr ([], \<lparr>store = storeOf [res ''1'' ''A'' 1 5], calendar = armed (res ''1'' ''A'' 1 5)\<rparr>)"
  using commit_without_proposal [of
      "\<lparr>store = storeOf [res ''1'' ''A'' 1 5], calendar = armed (res ''1'' ''A'' 1 5)\<rparr>"
      "\<lparr>reservationId = ''1'', originalReservation = res ''1'' ''A'' 1 5, isActive = False,
        newStartDate = None, newEndDate = None\<rparr>" V2 True]
  by (simp add: dragArmed_def armed_def idleCalendar_def res_def)


section \<open>The selection gesture\<close>

text \<open>
  Claim C7, amended. While no drag is active: from Idle, a click on a day sets the day as
  anchor and emits nothing; from \<open>AnchorSet anchor\<close>, a click on a day emits the range
  \<open>(min anchor day, max anchor day)\<close> to the caller and returns to Idle. While a drag is
  active, a click on a day is ignored: no emission and no change of state. From
  \<open>AnchorSet anchor\<close>, cancel returns to Idle with no emission.
\<close>

theorem selection_machine:
  "(\<not> dragActive (calendar a) \<and> selIdle a
      \<longrightarrow> handleDateClick day a =
            ([], a\<lparr>calendar := (calendar a)
                    \<lparr>selectedRange := (Some day, None), isSelecting := True\<rparr>\<rparr>)
          \<and> selAnchorSet day (snd (handleDateClick day a)))
   \<and> (\<not> dragActive (calendar a) \<and> selAnchorSet anchor a
      \<longrightarrow> handleDateClick day a =
            ([DateRangeSelect (min anchor day) (max anchor day)],
             a\<lparr>calendar := (calendar a)
                 \<lparr>selectedRange := (None, None), isSelecting := False\<rparr>\<rparr>)
          \<and> selIdle (snd (handleDateClick day a)))
   \<and> (dragActive (calendar a) \<longrightarrow> handleDateClick day a = ([], a))
   \<and> (selAnchorSet anchor a
      \<longrightarrow> cancelSelection a =
            ([], a\<lparr>calendar := (calendar a)
                    \<lparr>isSelecting := False, selectedRange := (None, None)\<rparr>\<rparr>)
          \<and> selIdle (snd (cancelSelection a)))"
  by (auto simp: handleDateClick_def cancelSelection_def selIdle_def selAnchorSet_def
      Let_def min_def max_def)

text \<open>Anchor on day 9, then a click on day 4, or cancel; and a click during a drag.\<close>

theorem selection_machine_witness:
  "\<not> dragActive idleCalendar
   \<and> selIdle \<lparr>store = storeOf [], calendar = idleCalendar\<rparr>
   \<and> handleDateClick 9 \<lparr>store = storeOf [], calendar = idleCalendar\<rparr>
       = ([], \<lparr>store = storeOf [],
               calendar = idleCalendar\<lparr>selectedRange := (Some 9, None), isSelecting := True\<rparr>\<rparr>)
   \<and> selAnchorSet 9 \<lparr>store = storeOf [],
         calendar = idleCalendar\<lparr>selectedRange := (Some 9, None), isSelecting := True\<rparr>\<rparr>
   \<and> handleDateClick 4 \<lparr>store = storeOf [],
         calendar = idleCalendar\<lparr>selectedRange := (Some 9, None), isSelecting := True\<rparr>\<rparr>
       = ([DateRangeSelect 4 9], \<lparr>store = storeOf [], calendar = idleCalendar\<rparr>)
   \<and> cancelSelection \<lparr>store = storeOf [],
         calendar = idleCalendar\<lparr>selectedRange := (Some 9, None), isSelecting := True\<rparr>\<rparr>
       = ([], \<lparr>store = storeOf [], calendar = idleCalendar\<rparr>)
   \<and> dragActive (previewing (res ''1'' ''A'' 1 5) 10 14)
   \<and> handleDateClick 9
         \<lparr>store = storeOf [res ''1'' ''A'' 1 5], calendar = previewing (res ''1'' ''A'' 1 5) 10 14\<rparr>
       = ([], \<lparr>store = storeOf [res ''1'' ''A'' 1 5],
               calendar = previewing (res ''1'' ''A'' 1 5) 10 14\<rparr>)"
proof -
  let ?i = "\<lparr>store = storeOf [], calendar = idleCalendar\<rparr>"
  let ?s = "\<lparr>store = storeOf [],
     calendar = idleCalendar\<lparr>selectedRange := (Some 9, None), isSelecting := True\<rparr>\<rparr>"
  let ?p = "\<lparr>store = storeOf [res ''1'' ''A'' 1 5],
     calendar = previewing (res ''1'' ''A'' 1 5) 10 14\<rparr>"
  have i: "\<not> dragActive (calendar ?i) \<and> selIdle ?i"
    by (simp add: dragActive_def selIdle_def idleCalendar_def)
  have s: "\<not> dragActive (calendar ?s) \<and> selAnchorSet 9 ?s"
    by (simp add: dragActive_def selAnchorSet_def idleCalendar_def)
  have p: "dragActive (calendar ?p)"
    by (simp add: dragActive_def previewing_def)
  from selection_machine [where a = ?i and day = 9 and anchor = 0] i
  have 1: "handleDateClick 9 ?i = ([], ?s)"
    by (simp add: idleCalendar_def)
  from selection_machine [where a = ?s and day = 4 and anchor = 9] s
  have 2: "handleDateClick 4 ?s = ([DateRangeSelect 4 9], ?i)"
    and 3: "cancelSelection ?s = ([], ?i)"
    by (simp_all add: idleCalendar_def)
  from selection_machine [where a = ?p and day = 9 and anchor = 0] p
  have 4: "handleDateClick 9 ?p = ([], ?p)"
    by simp
  from i s p 1 2 3 4 show ?thesis by simp
qed

text \<open>
  Claim C7 as stated fails while a drag is active (Previewing): from Idle a click on day
  9 sets no anchor, and from \<open>AnchorSet 2\<close> a click on day 9 emits nothing and stays in
  \<open>AnchorSet 2\<close>.
\<close>

theorem click_ignored_during_drag_counterexample:
  "selIdle \<lparr>store = storeOf [res ''1'' ''A'' 1 5],
            calendar = previewing (res ''1'' ''A'' 1 5) 10 14\<rparr>
   \<and> handleDateClick 9
         \<lparr>store = storeOf [res ''1'' ''A'' 1 5], calendar = previewing (res ''1'' ''A'' 1 5) 10 14\<rparr>
       = ([], \<lparr>store = storeOf [res ''1'' ''A'' 1 5],
               calendar = previewing (res ''1'' ''A'' 1 5) 10 14\<rparr>)
   \<and> \<not> selAnchorSet 9
         (snd (handleDateClick 9
           \<lparr>store = storeOf [res ''1'' ''A'' 1 5],
            calendar = previewing (res ''1'' ''A'' 1 5) 10 14\<rparr>))
   \<and> selAnchorSet 2
         \<lparr>store = storeOf [res ''1'' ''A'' 1 5],
          calendar = (previewing (res ''1'' ''A'' 1 5) 10 14)
            \<lparr>selectedRange := (Some 2, None), isSelecting := True\<rparr>\<rparr>
   \<and> handleDateClick 9
         \<lparr>store = storeOf [res ''1'' ''A'' 1 5],
          calendar = (previewing (res ''1'' ''A'' 1 5) 10 14)
            \<lparr>selectedRange := (Some 2, None), isSelecting := True\<rparr>\<rparr>
       = ([], \<lparr>store = storeOf [res ''1'' ''A'' 1 5],
          calendar = (previewing (res ''1'' ''A'' 1 5) 10 14)
            \<lparr>selectedRange := (Some 2, None), isSelecting := True\<rparr>\<rparr>)"
  by (simp add: handleDateClick_def dragActive_def selIdle_def selAnchorSet_def previewing_def
      idleCalendar_def)


section \<open>The errors of the store\<close>

text \<open>
  Claim C8, amended. Whenever \<open>addReservation\<close> or \<open>updateReservation\<close> fails because the
  candidate overlaps an existing reservation of the same apartment, the error thrown is
  \<open>Error\<close> with one fixed message, whatever the store and the conflicting reservation
  are, and the state is unchanged.
\<close>

theorem conflict_error_is_fixed_message:
  "(checkConflict v (reservations s) d None = Inr True
      \<longrightarrow> addReservation v w now d s = (Inl (Error msgConflict), s))
   \<and> (\<forall>e. find (\<lambda>r. rid r = i) (reservations s) = Some e
          \<and> checkConflict v (reservations s) (mergeUpdates e u) (Some i) = Inr True
      \<longrightarrow> updateReservation v w i u s = (Inl (Error msgConflict), s))"
  by (simp add: addReservation_def updateReservation_def Let_def)

text \<open>A conflicting create and a conflicting update.\<close>

theorem conflict_error_is_fixed_message_witness:
  "checkConflict V2 (reservations (storeOf [res ''1'' ''A'' 1 5])) (draft ''A'' 3 8) None = Inr True
   \<and> addReservation V2 True ''9'' (draft ''A'' 3 8) (storeOf [res ''1'' ''A'' 1 5])
       = (Inl (Error msgConflict), storeOf [res ''1'' ''A'' 1 5])
   \<and> find (\<lambda>r. rid r = ''2'') (reservations (storeOf [res ''1'' ''A'' 1 5, res ''2'' ''A'' 7 8]))
       = Some (res ''2'' ''A'' 7 8)
   \<and> updateReservation V2 True ''2'' (noUpdates\<lparr>updStartDate := Some 5\<rparr>)
         (storeOf [res ''1'' ''A'' 1 5, res ''2'' ''A'' 7 8])
       = (Inl (Error msgConflict), storeOf [res ''1'' ''A'' 1 5, res ''2'' ''A'' 7 8])"
proof -
  let ?s = "storeOf [res ''1'' ''A'' 1 5]"
  let ?t = "storeOf [res ''1'' ''A'' 1 5, res ''2'' ''A'' 7 8]"
  let ?u = "noUpdates\<lparr>updStartDate := Some 5\<rparr>"
  have cc: "checkConflict V2 (reservations ?s) (draft ''A'' 3 8) None = Inr True"
    by (simp add: checkConflict_def overlapTest_def storeOf_def res_def draft_def)
  have fnd: "find (\<lambda>r. rid r = ''2'') (reservations ?t) = Some (res ''2'' ''A'' 7 8)"
    by (simp add: storeOf_def res_def)
  have cu: "checkConflict V2 (reservations ?t) (mergeUpdates (res ''2'' ''A'' 7 8) ?u) (Some ''2'')
      = Inr True"
    by (simp add: checkConflict_def overlapTest_def storeOf_def res_def mergeUpdates_def
        noUpdates_def)
  from conflict_error_is_fixed_message
    [where v = V2 and s = ?s and d = "draft ''A'' 3 8" and w = True and now = "''9''"] cc
  have 1: "addReservation V2 True ''9'' (draft ''A'' 3 8) ?s = (Inl (Error msgConflict), ?s)"
    by simp
  from conflict_error_is_fixed_message
    [where v = V2 and s = ?t and i = "''2''" and u = ?u and w = True] fnd cu
  have 2: "updateReservation V2 True ''2'' ?u ?t = (Inl (Error msgConflict), ?t)"
    by simp
  from cc fnd 1 2 show ?thesis by simp
qed

text \<open>
  Claim C8 as stated fails: the error does not carry the identity of the conflicting
  reservation. The same candidate conflicts with reservation 1 in one store and with
  reservation 2 in another, and the error thrown is the same value in both.
\<close>

theorem conflict_error_no_identity_counterexample:
  "conflicting [res ''1'' ''A'' 1 5] (draft ''A'' 3 8) None = [res ''1'' ''A'' 1 5]
   \<and> conflicting [res ''2'' ''A'' 2 6] (draft ''A'' 3 8) None = [res ''2'' ''A'' 2 6]
   \<and> fst (addReservation V2 True ''9'' (draft ''A'' 3 8) (storeOf [res ''1'' ''A'' 1 5]))
       = Inl (Error msgConflict)
   \<and> fst (addReservation V2 True ''9'' (draft ''A'' 3 8) (storeOf [res ''2'' ''A'' 2 6]))
       = Inl (Error msgConflict)
   \<and> fst (addReservation V3 True ''9'' (draft ''A'' 3 8) (storeOf [res ''1'' ''A'' 1 5]))
       = Inl (Error msgConflict)
   \<and> fst (addReservation V3 True ''9'' (draft ''A'' 3 8) (storeOf [res ''2'' ''A'' 2 6]))
       = Inl (Error msgConflict)
   \<and> fst (updateReservation V2 True ''7'' (noUpdates\<lparr>updStartDate := Some 3\<rparr>)
            (storeOf [res ''1'' ''A'' 1 5, res ''7'' ''A'' 6 8]))
       = Inl (Error msgConflict)
   \<and> fst (updateReservation V2 True ''7'' (noUpdates\<lparr>updStartDate := Some 3\<rparr>)
            (storeOf [res ''2'' ''A'' 2 5, res ''7'' ''A'' 6 8]))
       = Inl (Error msgConflict)"
  by (simp add: conflicting_def rivals_def intervalsOverlap_def addReservation_def
      updateReservation_def checkConflict_def overlapTest_def mergeUpdates_def noUpdates_def
      storeOf_def res_def draft_def)

text \<open>
  Claim C6, amended. For every reservation id present in a store that satisfies the
  per-apartment no-overlap invariant and in which every reservation has well-formed dates
  (\<open>startDate \<le> endDate\<close>), \<open>updateReservation\<close> with an empty change set never throws
  the conflict error: the merged candidate, checked against all reservations other than
  the id itself, has no conflict.
\<close>

theorem update_noop_no_conflict:
  assumes inv: "noOverlap (reservations s)"
    and wf: "\<forall>r \<in> set (reservations s). wellFormed r"
    and present: "i \<in> rid ` set (reservations s)"
  shows "(\<exists>e. find (\<lambda>r. rid r = i) (reservations s) = Some e
            \<and> checkConflict v (reservations s) (mergeUpdates e noUpdates) (Some i) = Inr False)
     \<and> fst (updateReservation v w i noUpdates s) \<noteq> Inl (Error msgConflict)"
proof -
  from present obtain e where fnd: "find (\<lambda>r. rid r = i) (reservations s) = Some e"
    by (cases "find (\<lambda>r. rid r = i) (reservations s)") (auto simp: find_None_iff)
  then have e: "e \<in> set (reservations s)" and ie: "rid e = i"
    by (auto simp: find_Some_iff)
  have riv: "r \<in> set (reservations s) \<and> r \<noteq> e \<and> apartment r = apartment e"
    if "r \<in> set (rivals (reservations s) e (Some i))" for r
    using that ie by (auto simp: rivals_def)
  have "checkConflict v (reservations s) e (Some i) =
      Inr (\<exists>r \<in> set (rivals (reservations s) e (Some i)).
             intervalsOverlap (startDate e) (endDate e) (startDate r) (endDate r))"
    by (rule checkConflict_wf) (use wf e riv in auto)
  moreover have "\<not> intervalsOverlap (startDate e) (endDate e) (startDate r) (endDate r)"
    if "r \<in> set (rivals (reservations s) e (Some i))" for r
    using riv [OF that] inv e unfolding noOverlap_def by metis
  ultimately have cc: "checkConflict v (reservations s) e (Some i) = Inr False"
    by simp
  have "msgSaveThrown \<noteq> msgConflict"
    by (simp add: msgSaveThrown_def msgConflict_def)
  moreover have "updApartment noUpdates = None"
    by (simp add: noUpdates_def)
  ultimately have "fst (updateReservation v w i noUpdates s) \<noteq> Inl (Error msgConflict)"
    using fnd cc
    by (simp add: updateReservation_def mergeUpdates_noUpdates saveReservations_def Let_def)
  with fnd cc show ?thesis by (simp add: mergeUpdates_noUpdates)
qed

text \<open>Two back-to-back reservations of one apartment; the second is updated with no change.\<close>

theorem update_noop_no_conflict_witness:
  "noOverlap (reservations (storeOf [res ''1'' ''A'' 1 5, res ''2'' ''A'' 6 8]))
   \<and> wellFormed (res ''1'' ''A'' 1 5) \<and> wellFormed (res ''2'' ''A'' 6 8)
   \<and> ''2'' \<in> rid ` set (reservations (storeOf [res ''1'' ''A'' 1 5, res ''2'' ''A'' 6 8]))
   \<and> fst (updateReservation V2 True ''2'' noUpdates
            (storeOf [res ''1'' ''A'' 1 5, res ''2'' ''A'' 6 8])) \<noteq> Inl (Error msgConflict)
   \<and> updateReservation V2 True ''2'' noUpdates (storeOf [res ''1'' ''A'' 1 5, res ''2'' ''A'' 6 8])
       = (Inr (res ''2'' ''A'' 6 8), storeOf [res ''1'' ''A'' 1 5, res ''2'' ''A'' 6 8])"
proof -
  let ?s = "storeOf [res ''1'' ''A'' 1 5, res ''2'' ''A'' 6 8]"
  have inv: "noOverlap (reservations ?s)"
    by (simp add: noOverlap_def intervalsOverlap_def storeOf_def res_def)
  have wf: "\<forall>r \<in> set (reservations ?s). wellFormed r"
    by (simp add: wellFormed_def storeOf_def res_def)
  have present: "''2'' \<in> rid ` set (reservations ?s)"
    by (simp add: storeOf_def res_def)
  have run: "updateReservation V2 True ''2'' noUpdates ?s = (Inr (res ''2'' ''A'' 6 8), ?s)"
    by (simp add: updateReservation_def checkConflict_def overlapTest_def saveReservations_def
        mergeUpdates_def noUpdates_def storeOf_def res_def Let_def)
  have wf': "wellFormed (res ''1'' ''A'' 1 5) \<and> wellFormed (res ''2'' ''A'' 6 8)"
    by (simp add: wellFormed_def res_def)
  from update_noop_no_conflict [OF inv wf present, of V2 True] inv wf' present run
  show ?thesis by simp
qed

text \<open>
  Claim C6 as stated fails on a stored reservation with start after end. Reservation 1
  over the reversed days 10 to 5 and reservation 2 over days 9 to 11 do not overlap
  (\<open>9 \<le> 5\<close> is false), but the empty update of reservation 1 finds its start, day 10,
  within 9 to 11 and throws the conflict error, with either date-fns behaviour.
\<close>

theorem update_noop_conflict_counterexample:
  "noOverlap (reservations (storeOf [res ''1'' ''A'' 10 5, res ''2'' ''A'' 9 11]))
   \<and> ''1'' \<in> rid ` set (reservations (storeOf [res ''1'' ''A'' 10 5, res ''2'' ''A'' 9 11]))
   \<and> updateReservation V2 True ''1'' noUpdates (storeOf [res ''1'' ''A'' 10 5, res ''2'' ''A'' 9 11])
       = (Inl (Error msgConflict), storeOf [res ''1'' ''A'' 10 5, res ''2'' ''A'' 9 11])
   \<and> updateReservation V3 True ''1'' noUpdates (storeOf [res ''1'' ''A'' 10 5, res ''2'' ''A'' 9 11])
       = (Inl (Error msgConflict), storeOf [res ''1'' ''A'' 10 5, res ''2'' ''A'' 9 11])"
  by (simp add: noOverlap_def intervalsOverlap_def updateReservation_def checkConflict_def
      overlapTest_def mergeUpdates_def noUpdates_def storeOf_def res_def Let_def)

end
